theory Spec2Isabelle
  imports Complex_Main
begin

section \<open>Text\<close>

text \<open>
  A Python \<open>str\<close> is modelled as a \<open>string\<close>. The model covers ASCII text: \<open>lower\<close>
  maps the letters A-Z to a-z and leaves every other character alone, and the whitespace
  that \<open>strip\<close> removes is the ASCII whitespace of \<open>str.isspace\<close> (codes 9-13, 28-32).
  The keyword lists of the classifier are ASCII.
\<close>

definition ascii_uppercase :: string where
  "ascii_uppercase = ''ABCDEFGHIJKLMNOPQRSTUVWXYZ''"

definition ascii_lowercase :: string where
  "ascii_lowercase = ''abcdefghijklmnopqrstuvwxyz''"

definition lower_char :: "char \<Rightarrow> char" where
  "lower_char c =
     (case map_of (zip ascii_uppercase ascii_lowercase) c of Some l \<Rightarrow> l | None \<Rightarrow> c)"

definition lower :: "string \<Rightarrow> string" where
  "lower s = map lower_char s"

definition whitespace :: string where
  "whitespace = [CHR 0x09, CHR 0x0A, CHR 0x0B, CHR 0x0C, CHR 0x0D,
                 CHR 0x1C, CHR 0x1D, CHR 0x1E, CHR 0x1F, CHR 0x20]"

definition isspace :: "char \<Rightarrow> bool" where
  "isspace c = (c \<in> set whitespace)"

definition strip :: "string \<Rightarrow> string" where
  "strip s = rev (dropWhile isspace (rev (dropWhile isspace s)))"

text \<open>\<open>s.startswith(w)\<close> and the substring test \<open>w in s\<close>.\<close>

fun startswith :: "string \<Rightarrow> string \<Rightarrow> bool" where
  "startswith s [] = True"
| "startswith [] (c # w) = False"
| "startswith (x # s) (c # w) = (x = c \<and> startswith s w)"

fun contains :: "string \<Rightarrow> string \<Rightarrow> bool" where
  "contains [] w = (w = [])"
| "contains (x # s) w = (startswith (x # s) w \<or> contains s w)"

text \<open>\<open>any(...)\<close> over the booleans a generator yields.\<close>

fun any :: "bool list \<Rightarrow> bool" where
  "any [] = False"
| "any (b # bs) = (b \<or> any bs)"

section \<open>Intent classifier\<close>

text \<open>
  The dictionary \<open>{"intent": ..., "confidence": ...}\<close> that \<open>analyze_message\<close> returns.
  The confidence is a float literal on which the program does no arithmetic; it is modelled
  by the decimal number the literal denotes.
\<close>

record analysis =
  intent :: string
  confidence :: rat

definition greeting_words :: "string list" where
  "greeting_words = [''hello'', ''hi'', ''hey'', ''greetings'']"

definition status_words :: "string list" where
  "status_words = [''status'', ''how'', ''what'', ''condition'', ''state'']"

definition power_words :: "string list" where
  "power_words = [''power'', ''electricity'', ''watt'', ''consumption'', ''generation'']"

definition battery_words :: "string list" where
  "battery_words = [''battery'', ''capacity'', ''charge'', ''energy'', ''storage'']"

definition water_words :: "string list" where
  "water_words = [''water'', ''reserve'', ''level'', ''tank'']"

definition maintenance_words :: "string list" where
  "maintenance_words = [''maintenance'', ''service'', ''check'', ''inspect'']"

definition analyze_message :: "string \<Rightarrow> analysis" where
  "analyze_message message =
     (let message_lower = strip (lower message) in
      if any (map (\<lambda>word. contains message_lower word) greeting_words)
      then \<lparr>intent = ''greeting'', confidence = 0.9\<rparr>
      else if any (map (\<lambda>word. contains message_lower word) status_words)
      then \<lparr>intent = ''status'', confidence = 0.8\<rparr>
      else if any (map (\<lambda>word. contains message_lower word) power_words)
      then \<lparr>intent = ''power'', confidence = 0.85\<rparr>
      else if any (map (\<lambda>word. contains message_lower word) battery_words)
      then \<lparr>intent = ''battery'', confidence = 0.9\<rparr>
      else if any (map (\<lambda>word. contains message_lower word) water_words)
      then \<lparr>intent = ''water'', confidence = 0.7\<rparr>
      else if any (map (\<lambda>word. contains message_lower word) maintenance_words)
      then \<lparr>intent = ''maintenance'', confidence = 0.8\<rparr>
      else \<lparr>intent = ''unknown'', confidence = 0.3\<rparr>)"

subsection \<open>Notions used to state the classifier's properties\<close>

text \<open>
  A keyword survives the normalisation of a message when it is non-empty and made of
  characters that \<open>lower\<close> leaves alone and \<open>strip\<close> does not remove.
\<close>

definition stable_word :: "string \<Rightarrow> bool" where
  "stable_word w = (w \<noteq> [] \<and> (\<forall>c \<in> set w. lower_char c = c \<and> \<not> isspace c))"

text \<open>
  The standalone words of a message: its maximal runs of non-whitespace characters, as
  \<open>str.split()\<close> returns them. The program never splits a message; this is only the
  yardstick against which substring matching is compared.
\<close>

fun split_from :: "string \<Rightarrow> string \<Rightarrow> string list" where
  "split_from cur [] = (if cur = [] then [] else [cur])"
| "split_from cur (c # cs) =
     (if isspace c then (if cur = [] then [] else [cur]) @ split_from [] cs
      else split_from (cur @ [c]) cs)"

definition split :: "string \<Rightarrow> string list" where
  "split s = split_from [] s"

section \<open>Numbers, formatting, time and chance\<close>

text \<open>
  The exceptions the modelled code can raise; all are subclasses of \<open>Exception\<close>.
  \<open>SendError\<close> stands for whatever a failed \<open>send_json\<close> raises.
\<close>

datatype error = TypeError | ValueError | OverflowError | KeyError | IndexError | SendError

text \<open>
  A Python \<open>float\<close>: a finite value (every finite float is a rational number), an infinity
  or NaN. The program never computes with floats; it stores them and truncates them with
  \<open>int(...)\<close>, which rounds towards zero and raises on \<open>None\<close>, NaN and the infinities.
\<close>

datatype pyfloat = Finite rat | PosInf | NegInf | NaN

fun py_int :: "pyfloat option \<Rightarrow> error + int" where
  "py_int None = Inl TypeError"
| "py_int (Some NaN) = Inl ValueError"
| "py_int (Some PosInf) = Inl OverflowError"
| "py_int (Some NegInf) = Inl OverflowError"
| "py_int (Some (Finite r)) = Inr (if 0 \<le> r then \<lfloor>r\<rfloor> else \<lceil>r\<rceil>)"

text \<open>The decimal text of an integer, as \<open>str\<close>, \<open>format\<close> and f-strings print it.\<close>

definition digit :: "nat \<Rightarrow> char" where
  "digit d = ''0123456789'' ! d"

function str_nat :: "nat \<Rightarrow> string" where
  "str_nat n = (if n < 10 then [digit n] else str_nat (n div 10) @ [digit (n mod 10)])"
  by pat_completeness auto
termination
  by (relation "measure id") auto

declare str_nat.simps [simp del]

definition str_int :: "int \<Rightarrow> string" where
  "str_int i = (if i < 0 then CHR ''-'' # str_nat (nat (- i)) else str_nat (nat i))"

text \<open>
  \<open>template.format(**kw)\<close> for templates whose replacement fields are plain names:
  literal text is copied, \<open>{name}\<close> is replaced by the text of \<open>kw[name]\<close>. The second
  argument is the field name read so far (\<open>None\<close> outside braces). Doubled braces, format
  specifications and conversions do not occur in the program's templates and are not modelled.
\<close>

fun format_from :: "(string \<times> string) list \<Rightarrow> string option \<Rightarrow> string \<Rightarrow> error + string" where
  "format_from kw None [] = Inr []"
| "format_from kw (Some name) [] = Inl ValueError"
| "format_from kw None (c # cs) =
     (if c = CHR ''{'' then format_from kw (Some []) cs
      else if c = CHR ''}'' then Inl ValueError
      else (case format_from kw None cs of Inl e \<Rightarrow> Inl e | Inr out \<Rightarrow> Inr (c # out)))"
| "format_from kw (Some name) (c # cs) =
     (if c = CHR ''}''
      then (case map_of kw name of
              None \<Rightarrow> Inl KeyError
            | Some v \<Rightarrow> (case format_from kw None cs of Inl e \<Rightarrow> Inl e | Inr out \<Rightarrow> Inr (v @ out)))
      else format_from kw (Some (name @ [c])) cs)"

definition format :: "string \<Rightarrow> (string \<times> string) list \<Rightarrow> error + string" where
  "format template kw = format_from kw None template"

text \<open>
  A \<open>datetime\<close> is a count of microseconds, a \<open>timedelta\<close> a difference of two; \<open>.days\<close>
  rounds towards minus infinity, as \<open>timedelta\<close> normalisation does. Each call of
  \<open>datetime.now()\<close> is a parameter of the function that makes it.
\<close>

definition timedelta_days :: "int \<Rightarrow> int" where
  "timedelta_days n = n * 86400000000"

definition days :: "int \<Rightarrow> int" where
  "days delta = delta div 86400000000"

text \<open>
  \<open>random.choice(seq)\<close>: the random source is the parameter \<open>rnd\<close>, and the element
  chosen is the one at index \<open>rnd mod len(seq)\<close>. An empty sequence raises.
\<close>

definition choice :: "nat \<Rightarrow> 'a list \<Rightarrow> error + 'a" where
  "choice rnd seq = (if seq = [] then Inl IndexError else Inr (seq ! (rnd mod length seq)))"

section \<open>The HUD state\<close>

text \<open>
  \<open>HudState\<close>. Assignments to a pydantic model are not validated, and \<open>update_state\<close>
  assigns whatever the request supplied, \<open>None\<close> included; every attribute is therefore an
  option.
\<close>

record HudState =
  headline :: "string option"
  eve :: "string option"
  battery_pct :: "pyfloat option"
  load_w :: "pyfloat option"
  sun_w :: "pyfloat option"
  load_min_w :: "pyfloat option"
  load_max_w :: "pyfloat option"
  sun_min_w :: "pyfloat option"
  sun_max_w :: "pyfloat option"
  last_user_line :: "string option"
  bot_reply_pending :: "string option"

definition HudState_defaults :: HudState where
  "HudState_defaults =
     \<lparr>headline = Some ''BRAM HOUSE'',
      eve = Some ''EVE'',
      battery_pct = Some (Finite 76.0),
      load_w = Some (Finite 1344.0),
      sun_w = Some (Finite 8000.0),
      load_min_w = Some (Finite 0.0),
      load_max_w = Some (Finite 5000.0),
      sun_min_w = Some (Finite 0.0),
      sun_max_w = Some (Finite 8000.0),
      last_user_line = Some ''HELLO ASTRID, HOW ARE MY RESERVE WATER LEVELS?'',
      bot_reply_pending = None\<rparr>"

text \<open>
  One item of \<open>update.dict(exclude_unset=True)\<close>: the name of a field of \<open>StateUpdate\<close>
  that the request set, with the value it supplied (\<open>None\<close> for an explicit null).
  \<open>bot_reply_pending\<close> is not a field of \<open>StateUpdate\<close>.
\<close>

datatype item =
    Item_headline "string option"
  | Item_eve "string option"
  | Item_battery_pct "pyfloat option"
  | Item_load_w "pyfloat option"
  | Item_sun_w "pyfloat option"
  | Item_load_min_w "pyfloat option"
  | Item_load_max_w "pyfloat option"
  | Item_sun_min_w "pyfloat option"
  | Item_sun_max_w "pyfloat option"
  | Item_last_user_line "string option"

fun key :: "item \<Rightarrow> string" where
  "key (Item_headline v) = ''headline''"
| "key (Item_eve v) = ''eve''"
| "key (Item_battery_pct v) = ''battery_pct''"
| "key (Item_load_w v) = ''load_w''"
| "key (Item_sun_w v) = ''sun_w''"
| "key (Item_load_min_w v) = ''load_min_w''"
| "key (Item_load_max_w v) = ''load_max_w''"
| "key (Item_sun_min_w v) = ''sun_min_w''"
| "key (Item_sun_max_w v) = ''sun_max_w''"
| "key (Item_last_user_line v) = ''last_user_line''"

text \<open>\<open>setattr(STATE, k, v)\<close> for the item \<open>(k, v)\<close>.\<close>

fun setattr :: "HudState \<Rightarrow> item \<Rightarrow> HudState" where
  "setattr st (Item_headline v) = st\<lparr>headline := v\<rparr>"
| "setattr st (Item_eve v) = st\<lparr>eve := v\<rparr>"
| "setattr st (Item_battery_pct v) = st\<lparr>battery_pct := v\<rparr>"
| "setattr st (Item_load_w v) = st\<lparr>load_w := v\<rparr>"
| "setattr st (Item_sun_w v) = st\<lparr>sun_w := v\<rparr>"
| "setattr st (Item_load_min_w v) = st\<lparr>load_min_w := v\<rparr>"
| "setattr st (Item_load_max_w v) = st\<lparr>load_max_w := v\<rparr>"
| "setattr st (Item_sun_min_w v) = st\<lparr>sun_min_w := v\<rparr>"
| "setattr st (Item_sun_max_w v) = st\<lparr>sun_max_w := v\<rparr>"
| "setattr st (Item_last_user_line v) = st\<lparr>last_user_line := v\<rparr>"

text \<open>Whether the attribute an item names holds the item's value.\<close>

fun holds :: "HudState \<Rightarrow> item \<Rightarrow> bool" where
  "holds st (Item_headline v) = (headline st = v)"
| "holds st (Item_eve v) = (eve st = v)"
| "holds st (Item_battery_pct v) = (battery_pct st = v)"
| "holds st (Item_load_w v) = (load_w st = v)"
| "holds st (Item_sun_w v) = (sun_w st = v)"
| "holds st (Item_load_min_w v) = (load_min_w st = v)"
| "holds st (Item_load_max_w v) = (load_max_w st = v)"
| "holds st (Item_sun_min_w v) = (sun_min_w st = v)"
| "holds st (Item_sun_max_w v) = (sun_max_w st = v)"
| "holds st (Item_last_user_line v) = (last_user_line st = v)"

section \<open>The whole program state\<close>

text \<open>
  A \<open>WebSocket\<close> object is known by its identity. The wire events are the JSON objects the
  program sends; their \<open>text\<close> is a JSON string or null.
\<close>

type_synonym ws = nat

datatype event =
    State_event HudState
  | User_line "string option"
  | Clear_center
  | Bot_reply "string option"

text \<open>
  What the program does to the outside world is recorded in a trace: each call of
  \<open>broadcast\<close>, each \<open>send_json\<close> with its outcome (\<open>True\<close> when the send succeeded), and
  each \<open>asyncio.sleep\<close> with its duration.
\<close>

datatype action = Broadcast event | Send ws event bool | Sleep rat

record entry =
  timestamp :: int
  user :: string
  bot :: string

text \<open>
  The module's globals: \<open>STATE\<close>, the controller's \<open>conversation_history\<close> and
  \<open>system_status["last_maintenance"]\<close>, the manager's \<open>active\<close> list, and the trace.
  The controller's \<open>user_preferences\<close>, \<open>alerts\<close> and \<open>mode\<close> are never read or written
  by the modelled operations and are left out.
\<close>

record system =
  STATE :: HudState
  conversation_history :: "entry list"
  last_maintenance :: int
  active :: "ws list"
  trace :: "action list"

text \<open>Module import at time \<open>now\<close>: \<open>STATE = HudState()\<close>, the controller, the manager.\<close>

definition startup :: "int \<Rightarrow> system" where
  "startup now =
     \<lparr>STATE = HudState_defaults,
      conversation_history = [],
      last_maintenance = now - timedelta_days 7,
      active = [],
      trace = []\<rparr>"

section \<open>The stateful controller\<close>

definition response_patterns :: "(string \<times> string list) list" where
  "response_patterns =
     [(''greeting'',
        [''Greetings, human. How may I assist you today?'',
         ''Hello there. What would you like to know about your systems?'',
         ''ASTRID online and ready. What's your query?'']),
      (''status'',
        [''Current system status: All systems operational.'',
         ''Status check complete. Everything is running within normal parameters.'',
         ''Systems are functioning at optimal levels.'']),
      (''power'',
        [''Power consumption is currently at {load_w}W with {sun_w}W solar generation.'',
         ''Your power grid shows {load_w}W load against {sun_w}W solar input.'',
         ''Power status: {battery_pct}% battery, {load_w}W consumption, {sun_w}W generation.'']),
      (''battery'',
        [''Battery capacity is at {battery_pct}%.'',
         ''Your energy storage shows {battery_pct}% remaining.'',
         ''Battery status: {battery_pct}% capacity available.'']),
      (''unknown'',
        [''I'm not sure I understand that query. Could you rephrase?'',
         ''That's outside my current knowledge base. Try asking about power, battery, or system status.'',
         ''I need more context to help you with that request.''])]"

text \<open>\<open>random.choice(self.response_patterns[name])\<close>.\<close>

definition choose_pattern :: "nat \<Rightarrow> string \<Rightarrow> error + string" where
  "choose_pattern rnd name =
     (case map_of response_patterns name of
        None \<Rightarrow> Inl KeyError
      | Some patterns \<Rightarrow> choice rnd patterns)"

definition add_to_history :: "int \<Rightarrow> string \<Rightarrow> string \<Rightarrow> system \<Rightarrow> system" where
  "add_to_history now user_message bot_response s =
     (let history = conversation_history s
                      @ [\<lparr>timestamp = now, user = user_message, bot = bot_response\<rparr>]
      in s\<lparr>conversation_history := (if length history > 20 then tl history else history)\<rparr>)"

definition generate_response :: "int \<Rightarrow> nat \<Rightarrow> string \<Rightarrow> string \<Rightarrow> system \<Rightarrow> error + string" where
  "generate_response now rnd message intent' s =
     (if intent' = ''greeting'' then choose_pattern rnd ''greeting''
      else if intent' = ''status'' then choose_pattern rnd ''status''
      else if intent' = ''power'' then
        (case choose_pattern rnd ''power'' of Inl e \<Rightarrow> Inl e | Inr template \<Rightarrow>
         (case py_int (load_w (STATE s)) of Inl e \<Rightarrow> Inl e | Inr load \<Rightarrow>
          (case py_int (sun_w (STATE s)) of Inl e \<Rightarrow> Inl e | Inr sun \<Rightarrow>
           (case py_int (battery_pct (STATE s)) of Inl e \<Rightarrow> Inl e | Inr pct \<Rightarrow>
              format template [(''load_w'', str_int load), (''sun_w'', str_int sun),
                               (''battery_pct'', str_int pct)]))))
      else if intent' = ''battery'' then
        (case choose_pattern rnd ''battery'' of Inl e \<Rightarrow> Inl e | Inr template \<Rightarrow>
         (case py_int (battery_pct (STATE s)) of Inl e \<Rightarrow> Inl e | Inr pct \<Rightarrow>
            format template [(''battery_pct'', str_int pct)]))
      else if intent' = ''water'' then
        Inr ''I don't have access to water system sensors at the moment. My current monitoring is limited to power systems.''
      else if intent' = ''maintenance'' then
        (let days_since = days (now - last_maintenance s) in
         if days_since > 30
         then Inr (''System maintenance is overdue by '' @ str_int (days_since - 30)
                   @ '' days. Recommend scheduling a service check.'')
         else (let days_until = 30 - days_since in
               Inr (''Last maintenance was '' @ str_int days_since
                    @ '' days ago. Next scheduled maintenance in '' @ str_int days_until
                    @ '' days.'')))
      else choose_pattern rnd ''unknown'')"

text \<open>
  \<open>process_message\<close>. \<open>now\<close> is the clock read by \<open>generate_response\<close>, \<open>now'\<close> the one
  read by \<open>add_to_history\<close>. An exception leaves the state as it was when it was raised.
\<close>

definition process_message :: "int \<Rightarrow> int \<Rightarrow> nat \<Rightarrow> string \<Rightarrow> system \<Rightarrow> (error + string) \<times> system" where
  "process_message now now' rnd message s =
     (let analysis = analyze_message message;
          intent' = intent analysis
      in case generate_response now rnd message intent' s of
           Inl e \<Rightarrow> (Inl e, s)
         | Inr response \<Rightarrow> (Inr response, add_to_history now' message response s))"

section \<open>The connection manager\<close>

text \<open>
  Whether a send succeeds is decided outside the program: \<open>ok n w\<close> tells whether a send to
  \<open>w\<close> succeeds when \<open>n\<close> actions have been recorded so far. A failed send raises.
\<close>

definition send_json :: "(nat \<Rightarrow> ws \<Rightarrow> bool) \<Rightarrow> ws \<Rightarrow> event \<Rightarrow> system \<Rightarrow> (error + unit) \<times> system" where
  "send_json ok w message s =
     (let sent = ok (length (trace s)) w
      in (if sent then Inr () else Inl SendError,
          s\<lparr>trace := trace s @ [Send w message sent]\<rparr>))"


text \<open>
  The loop of \<open>broadcast\<close> over \<open>self.active\<close>, with the list \<open>living\<close> built so far;
  \<open>except Exception: pass\<close> is the \<open>Inl\<close> branch.
\<close>

fun broadcast_loop :: "(nat \<Rightarrow> ws \<Rightarrow> bool) \<Rightarrow> event \<Rightarrow> ws list \<Rightarrow> ws list \<Rightarrow> system \<Rightarrow> ws list \<times> system" where
  "broadcast_loop ok message [] living s = (living, s)"
| "broadcast_loop ok message (w # rest) living s =
     (case send_json ok w message s of
        (Inr u, s') \<Rightarrow> broadcast_loop ok message rest (living @ [w]) s'
      | (Inl e, s') \<Rightarrow> broadcast_loop ok message rest living s')"

definition broadcast :: "(nat \<Rightarrow> ws \<Rightarrow> bool) \<Rightarrow> event \<Rightarrow> system \<Rightarrow> (error + unit) \<times> system" where
  "broadcast ok message s =
     (case broadcast_loop ok message (active s) [] (s\<lparr>trace := trace s @ [Broadcast message]\<rparr>) of
        (living, s') \<Rightarrow> (Inr (), s'\<lparr>active := living\<rparr>))"

section \<open>The endpoints\<close>



text \<open>
  \<open>update_state\<close>, on the items of \<open>update.dict(exclude_unset=True)\<close> in their order.
  The result \<open>Inr ()\<close> is the response \<open>{"ok": True}\<close>.
\<close>

definition update_state :: "(nat \<Rightarrow> ws \<Rightarrow> bool) \<Rightarrow> item list \<Rightarrow> system \<Rightarrow> (error + unit) \<times> system" where
  "update_state ok upd s =
     (let s1 = s\<lparr>STATE := foldl setattr (STATE s) upd\<rparr> in
      case broadcast ok (State_event (STATE s1)) s1 of
        (Inl e, s2) \<Rightarrow> (Inl e, s2)
      | (Inr u, s2) \<Rightarrow> (Inr (), s2))"

definition bot_reply :: "(nat \<Rightarrow> ws \<Rightarrow> bool) \<Rightarrow> string \<Rightarrow> system \<Rightarrow> (error + unit) \<times> system" where
  "bot_reply ok text s =
     (let s1 = s\<lparr>STATE := (STATE s)\<lparr>bot_reply_pending := Some text\<rparr>\<rparr> in
      case broadcast ok (Bot_reply (bot_reply_pending (STATE s1))) s1 of
        (Inl e, s2) \<Rightarrow> (Inl e, s2)
      | (Inr u, s2) \<Rightarrow> (Inr (), s2\<lparr>STATE := (STATE s2)\<lparr>bot_reply_pending := None\<rparr>\<rparr>))"

text \<open>\<open>process_message_directly\<close>: the reply, and the analysis computed once more.\<close>

definition process_message_directly :: "int \<Rightarrow> int \<Rightarrow> nat \<Rightarrow> string \<Rightarrow> system \<Rightarrow> (error + string \<times> analysis) \<times> system" where
  "process_message_directly now now' rnd text s =
     (case process_message now now' rnd text s of
        (Inl e, s') \<Rightarrow> (Inl e, s')
      | (Inr response, s') \<Rightarrow> (Inr (response, analyze_message text), s'))"

section \<open>Notions used to state the properties\<close>

text \<open>The events a socket has been sent successfully, oldest first.\<close>

fun received :: "ws \<Rightarrow> action list \<Rightarrow> event list" where
  "received w [] = []"
| "received w (Broadcast ev # as) = received w as"
| "received w (Sleep d # as) = received w as"
| "received w (Send w' ev sent # as) = (if w' = w \<and> sent then ev # received w as else received w as)"

text \<open>
  The send attempts of one run of the loop of \<open>broadcast\<close> over the sockets \<open>ws\<close>, when
  \<open>m\<close> actions are recorded before the first attempt: one attempt per socket, in the order
  of \<open>ws\<close>, the attempt on the \<open>i\<close>-th socket made with \<open>m + i\<close> actions recorded. \<open>kept\<close>
  lists the sockets whose attempt succeeds, in the order of \<open>ws\<close>.
\<close>

definition sends :: "(nat \<Rightarrow> ws \<Rightarrow> bool) \<Rightarrow> nat \<Rightarrow> event \<Rightarrow> ws list \<Rightarrow> action list" where
  "sends ok m ev ws = map (\<lambda>i. Send (ws ! i) ev (ok (m + i) (ws ! i))) [0..<length ws]"

definition kept :: "(nat \<Rightarrow> ws \<Rightarrow> bool) \<Rightarrow> nat \<Rightarrow> ws list \<Rightarrow> ws list" where
  "kept ok m ws = map (\<lambda>i. ws ! i) (filter (\<lambda>i. ok (m + i) (ws ! i)) [0..<length ws])"


text \<open>A run of \<open>add_to_history\<close> calls, each given by its clock reading and its two texts.\<close>

fun appends :: "(int \<times> string \<times> string) list \<Rightarrow> system \<Rightarrow> system" where
  "appends [] s = s"
| "appends ((now, user_message, bot_response) # rest) s =
     appends rest (add_to_history now user_message bot_response s)"

definition entry_of :: "int \<times> string \<times> string \<Rightarrow> entry" where
  "entry_of c = (case c of (now, user_message, bot_response) \<Rightarrow>
                   \<lparr>timestamp = now, user = user_message, bot = bot_response\<rparr>)"

text \<open>
  A reading that \<open>int(...)\<close> accepts: not \<open>None\<close>, and a finite float.
\<close>

fun isfinite :: "pyfloat option \<Rightarrow> bool" where
  "isfinite (Some (Finite r)) = True"
| "isfinite v = False"

text \<open>An example run of twenty-one \<open>add_to_history\<close> calls, at the clock readings 0 to 20.\<close>

definition twenty_one_calls :: "(int \<times> string \<times> string) list" where
  "twenty_one_calls = map (\<lambda>n. (int n, ''status?'', ''All systems operational.'')) [0..<21]"


section \<open>Properties of the text operations\<close>

lemma startswith_iff: "startswith s w \<longleftrightarrow> (\<exists>q. s = w @ q)"
  by (induction s w rule: startswith.induct) auto

text \<open>\<open>contains s w\<close> is exactly that \<open>w\<close> occurs in \<open>s\<close> as a contiguous block.\<close>

lemma contains_iff: "contains s w \<longleftrightarrow> (\<exists>p q. s = p @ w @ q)"
proof (induction s)
  case Nil
  then show ?case by auto
next
  case (Cons x s)
  show ?case
  proof
    assume "contains (x # s) w"
    then consider "startswith (x # s) w" | "contains s w" by auto
    then show "\<exists>p q. x # s = p @ w @ q"
    proof cases
      case 1
      then obtain q where "x # s = w @ q" using startswith_iff by blast
      then have "x # s = [] @ w @ q" by simp
      then show ?thesis by blast
    next
      case 2
      then obtain p q where "s = p @ w @ q" using Cons.IH by blast
      then have "x # s = (x # p) @ w @ q" by simp
      then show ?thesis by blast
    qed
  next
    assume "\<exists>p q. x # s = p @ w @ q"
    then obtain p q where pq: "x # s = p @ w @ q" by blast
    show "contains (x # s) w"
    proof (cases p)
      case Nil
      with pq have "startswith (x # s) w" using startswith_iff by auto
      then show ?thesis by simp
    next
      case (Cons y p')
      with pq have "s = p' @ w @ q" by simp
      then have "contains s w" using Cons.IH by blast
      then show ?thesis by simp
    qed
  qed
qed

lemma any_map_iff: "any (map P xs) \<longleftrightarrow> (\<exists>x \<in> set xs. P x)"
  by (induction xs) auto

lemma dropWhile_keeps_infix:
  assumes "w \<noteq> []" "\<not> P (hd w)"
  shows "\<exists>a'. dropWhile P (a @ w @ b) = a' @ w @ b"
proof (induction a)
  case Nil
  from assms obtain c w' where "w = c # w'" by (cases w) auto
  with assms have "dropWhile P ([] @ w @ b) = [] @ w @ b" by simp
  then show ?case by blast
next
  case (Cons x a)
  show ?case
  proof (cases "P x")
    case True
    then show ?thesis using Cons.IH by simp
  next
    case False
    then have "dropWhile P ((x # a) @ w @ b) = (x # a) @ w @ b" by simp
    then show ?thesis by blast
  qed
qed

lemma strip_keeps_infix:
  assumes "w \<noteq> []" "\<forall>c \<in> set w. \<not> isspace c"
  shows "\<exists>a' b'. strip (a @ w @ b) = a' @ w @ b'"
proof -
  have h: "\<not> isspace (hd w)" using assms by (cases w) auto
  have l: "\<not> isspace (hd (rev w))" using assms by (simp add: hd_rev)
  obtain a' where a': "dropWhile isspace (a @ w @ b) = a' @ w @ b"
    using dropWhile_keeps_infix [of w isspace a b] assms(1) h by blast
  have "rev (a' @ w @ b) = rev b @ rev w @ rev a'" by simp
  moreover obtain b' where "dropWhile isspace (rev b @ rev w @ rev a') = b' @ rev w @ rev a'"
    using dropWhile_keeps_infix [of "rev w" isspace "rev b" "rev a'"] assms(1) l by auto
  ultimately have "strip (a @ w @ b) = a' @ w @ rev b'"
    by (simp add: strip_def a')
  then show ?thesis by blast
qed

lemma lower_fixed: "\<forall>c \<in> set w. lower_char c = c \<Longrightarrow> lower w = w"
  by (simp add: lower_def map_idI)

text \<open>A stable word found in the raw message is still found after \<open>lower\<close> and \<open>strip\<close>.\<close>

lemma normalised_contains:
  assumes "contains message w" "stable_word w"
  shows "contains (strip (lower message)) w"
proof -
  have w: "w \<noteq> []" "\<forall>c \<in> set w. lower_char c = c" "\<forall>c \<in> set w. \<not> isspace c"
    using assms(2) by (auto simp: stable_word_def)
  obtain p q where "message = p @ w @ q" using assms(1) contains_iff by blast
  then have "lower message = lower p @ w @ lower q"
    using lower_fixed [of w] w(2) by (simp add: lower_def)
  moreover obtain a' b' where "strip (lower p @ w @ lower q) = a' @ w @ b'"
    using strip_keeps_infix [of w "lower p" "lower q"] w by blast
  ultimately show ?thesis using contains_iff by auto
qed


section \<open>Properties of the intent classifier\<close>

lemmas text_defs = lower_def lower_char_def ascii_uppercase_def ascii_lowercase_def strip_def
  isspace_def whitespace_def

lemmas word_defs = greeting_words_def status_words_def power_words_def battery_words_def
  water_words_def maintenance_words_def

lemma status_words_stable: "\<forall>w \<in> set status_words. stable_word w"
  by (simp add: status_words_def stable_word_def lower_char_def ascii_uppercase_def
      ascii_lowercase_def isspace_def whitespace_def)

text \<open>
  Claim C1, as stated, fails: a message can hold a status keyword and a power keyword and
  still be classified as a greeting, because the greeting keywords are tested first.
  Here the message holds \<open>status\<close> and \<open>power\<close>, and its intent is not \<open>status\<close>.
\<close>

theorem status_and_power_counterexample:
  "''status'' \<in> set status_words \<and> contains ''hello, what is the power status'' ''status'' \<and>
   ''power'' \<in> set power_words \<and> contains ''hello, what is the power status'' ''power'' \<and>
   intent (analyze_message ''hello, what is the power status'') \<noteq> ''status''"
  by (simp add: analyze_message_def text_defs word_defs)

text \<open>
  Claim C1, amended: every message that contains a status keyword and a power keyword, and
  whose lower-cased, trimmed text contains no greeting keyword, is classified as
  \<open>status\<close> (with confidence 0.8).
\<close>

theorem status_before_power:
  assumes "\<exists>w \<in> set status_words. contains message w"
    and "\<exists>w \<in> set power_words. contains message w"
    and "\<forall>w \<in> set greeting_words. \<not> contains (strip (lower message)) w"
  shows "analyze_message message = \<lparr>intent = ''status'', confidence = 0.8\<rparr>"
proof -
  obtain w where w: "w \<in> set status_words" "contains message w" using assms(1) by blast
  then have "contains (strip (lower message)) w"
    using normalised_contains status_words_stable by blast
  with w(1) have "any (map (\<lambda>word. contains (strip (lower message)) word) status_words)"
    unfolding any_map_iff by blast
  moreover have "\<not> any (map (\<lambda>word. contains (strip (lower message)) word) greeting_words)"
    unfolding any_map_iff using assms(3) by blast
  ultimately show ?thesis by (simp add: analyze_message_def Let_def)
qed

text \<open>
  Claim C1, amended, at the message \<open>power status\<close>: the three hypotheses hold there, and
  the message is classified as \<open>status\<close>.
\<close>

theorem status_before_power_witness:
  "(\<exists>w \<in> set status_words. contains ''power status'' w) \<and>
   (\<exists>w \<in> set power_words. contains ''power status'' w) \<and>
   \<not> (\<exists>w \<in> set greeting_words. contains (strip (lower ''power status'')) w) \<and>
   analyze_message ''power status'' = \<lparr>intent = ''status'', confidence = 0.8\<rparr>"
proof -
  have a: "\<exists>w \<in> set status_words. contains ''power status'' w"
    by (simp add: status_words_def)
  have b: "\<exists>w \<in> set power_words. contains ''power status'' w"
    by (simp add: power_words_def)
  have c: "\<forall>w \<in> set greeting_words. \<not> contains (strip (lower ''power status'')) w"
    by (simp add: greeting_words_def text_defs)
  show ?thesis using status_before_power [OF a b c] a b c by blast
qed

lemma analyze_message_range:
  "analyze_message message \<in>
     {\<lparr>intent = ''greeting'', confidence = 0.9\<rparr>, \<lparr>intent = ''status'', confidence = 0.8\<rparr>,
      \<lparr>intent = ''power'', confidence = 0.85\<rparr>, \<lparr>intent = ''battery'', confidence = 0.9\<rparr>,
      \<lparr>intent = ''water'', confidence = 0.7\<rparr>, \<lparr>intent = ''maintenance'', confidence = 0.8\<rparr>,
      \<lparr>intent = ''unknown'', confidence = 0.3\<rparr>}"
  by (simp add: analyze_message_def Let_def)

lemma analyze_message_unknown_iff:
  "analyze_message message = \<lparr>intent = ''unknown'', confidence = 0.3\<rparr> \<longleftrightarrow>
     (\<forall>w \<in> set (greeting_words @ status_words @ power_words @ battery_words @ water_words
                  @ maintenance_words). \<not> contains (strip (lower message)) w)"
  by (auto simp: analyze_message_def Let_def any_map_iff)

lemma analyze_message_examples:
  "analyze_message ''hello'' = \<lparr>intent = ''greeting'', confidence = 0.9\<rparr>"
  "analyze_message ''what is my battery level'' = \<lparr>intent = ''status'', confidence = 0.8\<rparr>"
  "analyze_message ''watt'' = \<lparr>intent = ''power'', confidence = 0.85\<rparr>"
  "analyze_message ''battery'' = \<lparr>intent = ''battery'', confidence = 0.9\<rparr>"
  "analyze_message ''water'' = \<lparr>intent = ''water'', confidence = 0.7\<rparr>"
  "analyze_message ''maintenance'' = \<lparr>intent = ''maintenance'', confidence = 0.8\<rparr>"
  by (simp_all add: analyze_message_def text_defs word_defs)

text \<open>
  Claim C2: whatever the message, \<open>analyze_message\<close> returns one of seven results, each
  intent with its fixed confidence: greeting 0.9, status 0.8, power 0.85, battery 0.9,
  water 0.7, maintenance 0.8, unknown 0.3; the result is unknown with 0.3 exactly when no
  keyword of any list occurs in the lower-cased, trimmed message. \<open>hello\<close> is a greeting
  with 0.9, and \<open>what is my battery level\<close> is a status query with 0.8, since the status
  keyword \<open>what\<close> is tested before the battery keywords. Each of the other constants is
  returned for some message.
\<close>

theorem analyze_message_confidence:
  "analyze_message message \<in>
     {\<lparr>intent = ''greeting'', confidence = 0.9\<rparr>, \<lparr>intent = ''status'', confidence = 0.8\<rparr>,
      \<lparr>intent = ''power'', confidence = 0.85\<rparr>, \<lparr>intent = ''battery'', confidence = 0.9\<rparr>,
      \<lparr>intent = ''water'', confidence = 0.7\<rparr>, \<lparr>intent = ''maintenance'', confidence = 0.8\<rparr>,
      \<lparr>intent = ''unknown'', confidence = 0.3\<rparr>} \<and>
   (analyze_message message = \<lparr>intent = ''unknown'', confidence = 0.3\<rparr> \<longleftrightarrow>
      (\<forall>w \<in> set (greeting_words @ status_words @ power_words @ battery_words @ water_words
                   @ maintenance_words). \<not> contains (strip (lower message)) w)) \<and>
   analyze_message ''hello'' = \<lparr>intent = ''greeting'', confidence = 0.9\<rparr> \<and>
   analyze_message ''what is my battery level'' = \<lparr>intent = ''status'', confidence = 0.8\<rparr> \<and>
   contains ''what is my battery level'' ''battery'' \<and>
   analyze_message ''watt'' = \<lparr>intent = ''power'', confidence = 0.85\<rparr> \<and>
   analyze_message ''battery'' = \<lparr>intent = ''battery'', confidence = 0.9\<rparr> \<and>
   analyze_message ''water'' = \<lparr>intent = ''water'', confidence = 0.7\<rparr> \<and>
   analyze_message ''maintenance'' = \<lparr>intent = ''maintenance'', confidence = 0.8\<rparr>"
  using analyze_message_range [of message] analyze_message_unknown_iff [of message]
    analyze_message_examples
  by simp

text \<open>
  Claim C2 at the message \<open>xyz\<close>: no keyword occurs in it, and it is classified as unknown
  with confidence 0.3.
\<close>

theorem analyze_message_confidence_witness:
  "\<not> (\<exists>w \<in> set (greeting_words @ status_words @ power_words @ battery_words @ water_words
                   @ maintenance_words). contains (strip (lower ''xyz'')) w) \<and>
   analyze_message ''xyz'' = \<lparr>intent = ''unknown'', confidence = 0.3\<rparr>"
proof -
  have none: "\<forall>w \<in> set (greeting_words @ status_words @ power_words @ battery_words
                          @ water_words @ maintenance_words).
                \<not> contains (strip (lower ''xyz'')) w"
    by (simp add: word_defs text_defs)
  then show ?thesis using analyze_message_confidence [of "''xyz''"] by blast
qed

text \<open>
  Claim C9, as stated, fails at its own example: \<open>hi\<close> does not occur in \<open>switch\<close>, and
  \<open>switch the mode\<close> is not classified as a greeting.
\<close>

theorem switch_the_mode_counterexample:
  "\<not> contains ''switch the mode'' ''hi'' \<and>
   analyze_message ''switch the mode'' \<noteq> \<lparr>intent = ''greeting'', confidence = 0.9\<rparr>"
  by (simp add: analyze_message_def text_defs word_defs)

text \<open>
  Claim C9, amended: keyword matching is substring containment, not whole-word membership.
  A message whose lower-cased, trimmed text has a greeting keyword anywhere inside it is a
  greeting with confidence 0.9; for example \<open>shift the mode\<close>, where \<open>hi\<close> occurs inside
  \<open>shift\<close> and none of the standalone words \<open>shift\<close>, \<open>the\<close>, \<open>mode\<close> is a greeting
  keyword.
\<close>

theorem greeting_inside_a_word:
  "(\<forall>w p q. w \<in> set greeting_words \<and> strip (lower message) = p @ w @ q \<longrightarrow>
      analyze_message message = \<lparr>intent = ''greeting'', confidence = 0.9\<rparr>) \<and>
   analyze_message ''shift the mode'' = \<lparr>intent = ''greeting'', confidence = 0.9\<rparr> \<and>
   contains ''shift'' ''hi'' \<and>
   split ''shift the mode'' = [''shift'', ''the'', ''mode''] \<and>
   set (split ''shift the mode'') \<inter> set greeting_words = {}"
proof -
  have "analyze_message message = \<lparr>intent = ''greeting'', confidence = 0.9\<rparr>"
    if "w \<in> set greeting_words" "strip (lower message) = p @ w @ q" for w p q
  proof -
    have "contains (strip (lower message)) w" using that(2) contains_iff by blast
    then have "any (map (\<lambda>word. contains (strip (lower message)) word) greeting_words)"
      unfolding any_map_iff using that(1) by blast
    then show ?thesis by (simp add: analyze_message_def Let_def)
  qed
  moreover have "analyze_message ''shift the mode'' = \<lparr>intent = ''greeting'', confidence = 0.9\<rparr>"
    by (simp add: analyze_message_def text_defs word_defs)
  moreover have "contains ''shift'' ''hi''" by simp
  moreover have "split ''shift the mode'' = [''shift'', ''the'', ''mode'']"
    by (simp add: split_def isspace_def whitespace_def)
  moreover have "set (split ''shift the mode'') \<inter> set greeting_words = {}"
    by (simp add: split_def isspace_def whitespace_def greeting_words_def)
  ultimately show ?thesis by blast
qed

text \<open>
  Claim C9, amended, at the message \<open>Shift the mode\<close>: its normalised text is
  \<open>s\<close>, then the greeting keyword \<open>hi\<close>, then \<open>ft the mode\<close>, and it is a greeting.
\<close>

theorem greeting_inside_a_word_witness:
  "''hi'' \<in> set greeting_words \<and> strip (lower ''Shift the mode'') = ''s'' @ ''hi'' @ ''ft the mode'' \<and>
   analyze_message ''Shift the mode'' = \<lparr>intent = ''greeting'', confidence = 0.9\<rparr>"
proof -
  have a: "''hi'' \<in> set greeting_words" by (simp add: greeting_words_def)
  have b: "strip (lower ''Shift the mode'') = ''s'' @ ''hi'' @ ''ft the mode''"
    by (simp add: text_defs)
  show ?thesis using greeting_inside_a_word [of "''Shift the mode''"] a b by blast
qed

section \<open>Properties of the stateful controller\<close>

lemma str_examples: "str_int 7 = ''7''" "str_int 23 = ''23''" "str_int 5 = ''5''"
  by (simp_all add: str_int_def str_nat.simps [of 7] str_nat.simps [of 23] str_nat.simps [of 2]
      str_nat.simps [of 5] digit_def)

lemma add_to_history_history:
  "conversation_history (add_to_history now u b s) =
     (if length (conversation_history s) < 20 then conversation_history s
      else tl (conversation_history s)) @ [\<lparr>timestamp = now, user = u, bot = b\<rparr>]"
  by (cases "conversation_history s") (auto simp: add_to_history_def Let_def)

lemma last20_snoc:
  "drop (length (xs @ [e]) - 20) (xs @ [e]) =
     (if length (drop (length xs - 20) xs) < 20 then drop (length xs - 20) xs
      else tl (drop (length xs - 20) xs)) @ [e]"
proof (cases "length xs < 20")
  case True
  then show ?thesis by simp
next
  case False
  then have "length xs - 19 = Suc (length xs - 20)" by arith
  with False show ?thesis by (simp add: tl_drop drop_Suc)
qed

lemma appends_history:
  assumes "conversation_history s = drop (length pre - 20) pre"
  shows "conversation_history (appends ops s) =
           drop (length (pre @ map entry_of ops) - 20) (pre @ map entry_of ops)"
  using assms
proof (induction ops arbitrary: s pre)
  case Nil
  then show ?case by simp
next
  case (Cons c ops)
  obtain now u b where c: "c = (now, u, b)" by (cases c) auto
  let ?e = "\<lparr>timestamp = now, user = u, bot = b\<rparr>"
  have "conversation_history (add_to_history now u b s)
          = drop (length (pre @ [?e]) - 20) (pre @ [?e])"
    unfolding add_to_history_history last20_snoc using Cons.prems by simp
  from Cons.IH [OF this] show ?case by (simp add: c entry_of_def)
qed

lemma py_int_isfinite: "isfinite v \<Longrightarrow> \<exists>n. py_int v = Inr n"
  by (cases v rule: isfinite.cases) auto

lemma generate_response_branches:
  "generate_response now rnd message ''greeting'' s = choose_pattern rnd ''greeting''"
  "generate_response now rnd message ''status'' s = choose_pattern rnd ''status''"
  "generate_response now rnd message ''water'' s =
     Inr ''I don't have access to water system sensors at the moment. My current monitoring is limited to power systems.''"
  by (simp_all add: generate_response_def)

lemma generate_response_other:
  assumes "i \<noteq> ''greeting''" "i \<noteq> ''status''" "i \<noteq> ''power''" "i \<noteq> ''battery''"
    "i \<noteq> ''water''" "i \<noteq> ''maintenance''"
  shows "generate_response now rnd message i s = choose_pattern rnd ''unknown''"
  using assms by (simp add: generate_response_def)

lemma generate_response_maintenance:
  "generate_response now rnd message ''maintenance'' s =
     (if days (now - last_maintenance s) > 30
      then Inr (''System maintenance is overdue by '' @ str_int (days (now - last_maintenance s) - 30)
                @ '' days. Recommend scheduling a service check.'')
      else Inr (''Last maintenance was '' @ str_int (days (now - last_maintenance s))
                @ '' days ago. Next scheduled maintenance in ''
                @ str_int (30 - days (now - last_maintenance s)) @ '' days.''))"
  by (simp add: generate_response_def Let_def)

lemma format_power_ok:
  "\<exists>out. format ([
     ''Power consumption is currently at {load_w}W with {sun_w}W solar generation.'',
     ''Your power grid shows {load_w}W load against {sun_w}W solar input.'',
     ''Power status: {battery_pct}% battery, {load_w}W consumption, {sun_w}W generation.''] ! (rnd mod 3))
       [(''load_w'', l), (''sun_w'', u), (''battery_pct'', b)] = Inr out"
proof -
  have "rnd mod 3 = 0 \<or> rnd mod 3 = 1 \<or> rnd mod 3 = 2" by arith
  then show ?thesis by (elim disjE) (simp_all add: format_def)
qed

lemma format_battery_ok:
  "\<exists>out. format ([
     ''Battery capacity is at {battery_pct}%.'',
     ''Your energy storage shows {battery_pct}% remaining.'',
     ''Battery status: {battery_pct}% capacity available.''] ! (rnd mod 3))
       [(''battery_pct'', b)] = Inr out"
proof -
  have "rnd mod 3 = 0 \<or> rnd mod 3 = 1 \<or> rnd mod 3 = 2" by arith
  then show ?thesis by (elim disjE) (simp_all add: format_def)
qed

lemma choose_power:
  "choose_pattern rnd ''power'' = Inr ([
     ''Power consumption is currently at {load_w}W with {sun_w}W solar generation.'',
     ''Your power grid shows {load_w}W load against {sun_w}W solar input.'',
     ''Power status: {battery_pct}% battery, {load_w}W consumption, {sun_w}W generation.''] ! (rnd mod 3))"
  by (simp add: choose_pattern_def response_patterns_def choice_def)

lemma choose_battery:
  "choose_pattern rnd ''battery'' = Inr ([
     ''Battery capacity is at {battery_pct}%.'',
     ''Your energy storage shows {battery_pct}% remaining.'',
     ''Battery status: {battery_pct}% capacity available.''] ! (rnd mod 3))"
  by (simp add: choose_pattern_def response_patterns_def choice_def)

lemma choose_canned:
  "\<exists>p. choose_pattern rnd ''greeting'' = Inr p"
  "\<exists>p. choose_pattern rnd ''status'' = Inr p"
  "\<exists>p. choose_pattern rnd ''unknown'' = Inr p"
  by (simp_all add: choose_pattern_def response_patterns_def choice_def)

lemma generate_response_power:
  assumes "choose_pattern rnd ''power'' = Inr template"
    "py_int (load_w (STATE s)) = Inr load" "py_int (sun_w (STATE s)) = Inr sun"
    "py_int (battery_pct (STATE s)) = Inr pct"
  shows "generate_response now rnd message ''power'' s =
           format template [(''load_w'', str_int load), (''sun_w'', str_int sun),
                            (''battery_pct'', str_int pct)]"
  using assms by (simp add: generate_response_def)

lemma generate_response_battery:
  assumes "choose_pattern rnd ''battery'' = Inr template"
    "py_int (battery_pct (STATE s)) = Inr pct"
  shows "generate_response now rnd message ''battery'' s =
           format template [(''battery_pct'', str_int pct)]"
  using assms by (simp add: generate_response_def)

lemma generate_response_total:
  assumes "isfinite (battery_pct (STATE s))" "isfinite (load_w (STATE s))"
    "isfinite (sun_w (STATE s))"
  shows "\<exists>reply. generate_response now rnd message i s = Inr reply"
proof -
  obtain pct where pct: "py_int (battery_pct (STATE s)) = Inr pct"
    using assms(1) py_int_isfinite by blast
  obtain load where load: "py_int (load_w (STATE s)) = Inr load"
    using assms(2) py_int_isfinite by blast
  obtain sun where sun: "py_int (sun_w (STATE s)) = Inr sun"
    using assms(3) py_int_isfinite by blast
  consider "i = ''greeting''" | "i = ''status''" | "i = ''power''" | "i = ''battery''"
    | "i = ''water''" | "i = ''maintenance''"
    | "i \<noteq> ''greeting''" "i \<noteq> ''status''" "i \<noteq> ''power''" "i \<noteq> ''battery''"
      "i \<noteq> ''water''" "i \<noteq> ''maintenance''"
    by blast
  then show ?thesis
  proof cases
    case 1
    then show ?thesis using choose_canned(1) [of rnd] by (simp add: generate_response_branches(1))
  next
    case 2
    then show ?thesis using choose_canned(2) [of rnd] by (simp add: generate_response_branches(2))
  next
    case 3
    show ?thesis
      unfolding 3 generate_response_power [OF choose_power load sun pct]
      by (rule format_power_ok)
  next
    case 4
    show ?thesis
      unfolding 4 generate_response_battery [OF choose_battery pct]
      by (rule format_battery_ok)
  next
    case 5
    then show ?thesis by (simp add: generate_response_branches(3))
  next
    case 6
    then show ?thesis by (simp add: generate_response_maintenance)
  next
    case 7
    then show ?thesis using choose_canned(3) [of rnd] by (simp add: generate_response_other)
  qed
qed

lemma days_timedelta: "days (now - (now - timedelta_days n)) = n"
  by (simp add: days_def timedelta_days_def)

text \<open>
  Claim C3: after any run of \<open>add_to_history\<close> calls that starts from an empty log, the
  log holds at most 20 entries, and they are the most recent ones in the order they were
  appended (the oldest are evicted first). After exactly 21 calls the log is the 2nd to the
  21st entry: the 21st is its last element, and the 1st is gone (no entry of the log equals
  it, when the appended entries differ from one another).
\<close>

theorem conversation_history_bounded:
  assumes "conversation_history s = []"
  shows "length (conversation_history (appends ops s)) \<le> 20 \<and>
         conversation_history (appends ops s) = drop (length ops - 20) (map entry_of ops) \<and>
         (length ops = 21 \<longrightarrow>
            conversation_history (appends ops s) = tl (map entry_of ops) \<and>
            last (conversation_history (appends ops s)) = entry_of (ops ! 20) \<and>
            entry_of (ops ! 20) \<in> set (conversation_history (appends ops s)) \<and>
            (distinct (map entry_of ops) \<longrightarrow>
               entry_of (ops ! 0) \<notin> set (conversation_history (appends ops s))))"
proof -
  let ?es = "map entry_of ops"
  let ?h = "conversation_history (appends ops s)"
  have h: "?h = drop (length ops - 20) ?es"
    using appends_history [of s "[]" ops] assms by simp
  have bound: "length ?h \<le> 20" unfolding h by simp
  have "?h = tl ?es \<and> last ?h = entry_of (ops ! 20) \<and> entry_of (ops ! 20) \<in> set ?h \<and>
        (distinct ?es \<longrightarrow> entry_of (ops ! 0) \<notin> set ?h)"
    if len: "length ops = 21"
  proof -
    have l21: "length ?es = 21" using len by simp
    obtain e es where es: "?es = e # es" using l21 by (cases ?es) auto
    have l20: "length es = 20" using l21 unfolding es by simp
    have ne: "es \<noteq> []" using l20 by auto
    have tl: "?h = es" unfolding h using len es by simp
    have ops_ne: "ops \<noteq> []" using len by auto
    have "last ops = ops ! (length ops - 1)" by (rule last_conv_nth [OF ops_ne])
    then have "last ops = ops ! 20" unfolding len by simp
    then have "last ?es = entry_of (ops ! 20)" using ops_ne by (simp add: last_map)
    moreover have "last ?es = last es" unfolding es using ne by simp
    ultimately have last: "last es = entry_of (ops ! 20)" by simp
    have "?es ! 0 = entry_of (ops ! 0)" using len by simp
    then have first: "e = entry_of (ops ! 0)" unfolding es by simp
    have mem: "last es \<in> set es" using ne by simp
    have absent: "e \<notin> set es" if "distinct ?es" using that unfolding es by simp
    show ?thesis
      unfolding tl using es last first mem absent by simp
  qed
  with h bound show ?thesis by blast
qed

text \<open>
  Claim C3 on twenty-one calls after startup: the log holds the entries of the 2nd to the
  21st call; the entry of the 21st call is in it, that of the 1st is not.
\<close>

theorem conversation_history_bounded_witness:
  "conversation_history (startup 0) = [] \<and> length twenty_one_calls = 21 \<and>
   distinct (map entry_of twenty_one_calls) \<and>
   length (conversation_history (appends twenty_one_calls (startup 0))) \<le> 20 \<and>
   conversation_history (appends twenty_one_calls (startup 0)) = tl (map entry_of twenty_one_calls) \<and>
   entry_of (twenty_one_calls ! 20) \<in> set (conversation_history (appends twenty_one_calls (startup 0))) \<and>
   entry_of (twenty_one_calls ! 0) \<notin> set (conversation_history (appends twenty_one_calls (startup 0)))"
proof -
  have a: "conversation_history (startup 0) = []" by (simp add: startup_def)
  have b: "length twenty_one_calls = 21" by (simp add: twenty_one_calls_def)
  have "inj (\<lambda>n. entry_of (int n, ''status?'', ''All systems operational.''))"
    by (simp add: inj_def entry_of_def)
  then have c: "distinct (map entry_of twenty_one_calls)"
    by (simp add: twenty_one_calls_def distinct_map comp_def inj_on_def)
  show ?thesis using conversation_history_bounded [OF a, of twenty_one_calls] a b c by blast
qed

text \<open>
  Claim C6, as stated, fails on the wording of the reply: seven days after the last
  maintenance the reply is not the text \<open>last maintenance was 7 days ago, next in 23 days\<close>.
\<close>

theorem maintenance_reply_counterexample:
  "last_maintenance (startup 0) = 0 - timedelta_days 7 \<and>
   generate_response 0 0 ''maintenance'' ''maintenance'' (startup 0)
     \<noteq> Inr ''last maintenance was 7 days ago, next in 23 days''"
  by (simp add: startup_def generate_response_maintenance days_def timedelta_days_def)

text \<open>
  Claim C6, amended: for the intent \<open>maintenance\<close>, with \<open>days_since\<close> the whole days
  between the last maintenance and now, the reply is
  \<open>System maintenance is overdue by N days. Recommend scheduling a service check.\<close> with
  \<open>N = days_since - 30\<close> when \<open>days_since > 30\<close>, and otherwise
  \<open>Last maintenance was D days ago. Next scheduled maintenance in U days.\<close> with
  \<open>D = days_since\<close> and \<open>U = 30 - days_since\<close>. Seven days after the last maintenance it
  is \<open>Last maintenance was 7 days ago. Next scheduled maintenance in 23 days.\<close>, and
  thirty-five days after it is
  \<open>System maintenance is overdue by 5 days. Recommend scheduling a service check.\<close>
\<close>

theorem maintenance_reply:
  "generate_response now rnd message ''maintenance'' s =
     (if days (now - last_maintenance s) > 30
      then Inr (''System maintenance is overdue by '' @ str_int (days (now - last_maintenance s) - 30)
                @ '' days. Recommend scheduling a service check.'')
      else Inr (''Last maintenance was '' @ str_int (days (now - last_maintenance s))
                @ '' days ago. Next scheduled maintenance in ''
                @ str_int (30 - days (now - last_maintenance s)) @ '' days.'')) \<and>
   (last_maintenance s = now - timedelta_days 7 \<longrightarrow>
      generate_response now rnd message ''maintenance'' s =
        Inr ''Last maintenance was 7 days ago. Next scheduled maintenance in 23 days.'') \<and>
   (last_maintenance s = now - timedelta_days 35 \<longrightarrow>
      generate_response now rnd message ''maintenance'' s =
        Inr ''System maintenance is overdue by 5 days. Recommend scheduling a service check.'')"
proof -
  have "generate_response now rnd message ''maintenance'' s =
        Inr ''Last maintenance was 7 days ago. Next scheduled maintenance in 23 days.''"
    if "last_maintenance s = now - timedelta_days 7"
    unfolding generate_response_maintenance that days_timedelta
    by (simp add: str_examples)
  moreover have "generate_response now rnd message ''maintenance'' s =
        Inr ''System maintenance is overdue by 5 days. Recommend scheduling a service check.''"
    if "last_maintenance s = now - timedelta_days 35"
    unfolding generate_response_maintenance that days_timedelta
    by (simp add: str_examples)
  ultimately show ?thesis using generate_response_maintenance [of now rnd message s] by blast
qed

text \<open>
  Claim C6, amended, right after startup (the last maintenance is set seven days back),
  and in the same state with the last maintenance thirty-five days back.
\<close>

theorem maintenance_reply_witness:
  "last_maintenance (startup 0) = 0 - timedelta_days 7 \<and>
   generate_response 0 0 ''maintenance'' ''maintenance'' (startup 0) =
     Inr ''Last maintenance was 7 days ago. Next scheduled maintenance in 23 days.'' \<and>
   last_maintenance ((startup 0)\<lparr>last_maintenance := 0 - timedelta_days 35\<rparr>) = 0 - timedelta_days 35 \<and>
   generate_response 0 0 ''maintenance'' ''maintenance''
       ((startup 0)\<lparr>last_maintenance := 0 - timedelta_days 35\<rparr>) =
     Inr ''System maintenance is overdue by 5 days. Recommend scheduling a service check.''"
proof -
  have a: "last_maintenance (startup 0) = 0 - timedelta_days 7" by (simp add: startup_def)
  have b: "last_maintenance ((startup 0)\<lparr>last_maintenance := 0 - timedelta_days 35\<rparr>)
             = 0 - timedelta_days 35" by simp
  show ?thesis
    using maintenance_reply [of 0 0 "''maintenance''" "startup 0"]
      maintenance_reply [of 0 0 "''maintenance''" "(startup 0)\<lparr>last_maintenance := 0 - timedelta_days 35\<rparr>"]
      a b
    by blast
qed

section \<open>Properties of direct message processing\<close>

text \<open>
  Claim C10, as stated, fails: not every call appends an entry. After startup and a state
  update that sets \<open>battery_pct\<close> to null, processing the message \<open>battery\<close> raises
  \<open>TypeError\<close> in \<open>int(STATE.battery_pct)\<close>; nothing is returned and the log stays empty.
\<close>

theorem process_message_raises_counterexample:
  "update_state (\<lambda>n w. True) [Item_battery_pct None] (startup 0)
     = (Inr (), (startup 0)\<lparr>STATE := HudState_defaults\<lparr>battery_pct := None\<rparr>,
                             trace := [Broadcast (State_event (HudState_defaults\<lparr>battery_pct := None\<rparr>))]\<rparr>) \<and>
   process_message_directly 0 0 0 ''battery''
       ((startup 0)\<lparr>STATE := HudState_defaults\<lparr>battery_pct := None\<rparr>,
                     trace := [Broadcast (State_event (HudState_defaults\<lparr>battery_pct := None\<rparr>))]\<rparr>)
     = (Inl TypeError,
        (startup 0)\<lparr>STATE := HudState_defaults\<lparr>battery_pct := None\<rparr>,
                     trace := [Broadcast (State_event (HudState_defaults\<lparr>battery_pct := None\<rparr>))]\<rparr>) \<and>
   conversation_history
       ((startup 0)\<lparr>STATE := HudState_defaults\<lparr>battery_pct := None\<rparr>,
                     trace := [Broadcast (State_event (HudState_defaults\<lparr>battery_pct := None\<rparr>))]\<rparr>) = []"
proof -
  have a: "analyze_message ''battery'' = \<lparr>intent = ''battery'', confidence = 0.9\<rparr>"
    by (simp add: analyze_message_def text_defs word_defs)
  have b: "generate_response 0 0 ''battery'' ''battery''
       ((startup 0)\<lparr>STATE := HudState_defaults\<lparr>battery_pct := None\<rparr>,
                     trace := [Broadcast (State_event (HudState_defaults\<lparr>battery_pct := None\<rparr>))]\<rparr>)
       = Inl TypeError"
    by (simp add: generate_response_def choose_battery)
  have c: "update_state (\<lambda>n w. True) [Item_battery_pct None] (startup 0)
     = (Inr (), (startup 0)\<lparr>STATE := HudState_defaults\<lparr>battery_pct := None\<rparr>,
                             trace := [Broadcast (State_event (HudState_defaults\<lparr>battery_pct := None\<rparr>))]\<rparr>)"
    by (simp add: update_state_def broadcast_def startup_def)
  show ?thesis
    by (simp add: c process_message_directly_def process_message_def a b)
       (simp add: startup_def)
qed

text \<open>
  Claim C10, amended: the direct path is not free of side effects. Whenever
  \<open>generate_response\<close> produces a reply, \<open>process_message\<close> (and
  \<open>process_message_directly\<close> through it) returns that reply and appends exactly one entry
  (message, reply, timestamp) at the end of the log, after dropping the oldest entry when
  the log already holds 20; everything else in the state is as before. A reply is produced
  for every message when \<open>battery_pct\<close>, \<open>load_w\<close> and \<open>sun_w\<close> hold finite numbers. When
  \<open>generate_response\<close> raises, the exception is passed on and the state is unchanged.
\<close>

theorem process_message_appends:
  "(\<forall>reply. generate_response now rnd message (intent (analyze_message message)) s = Inr reply \<longrightarrow>
      process_message now now' rnd message s =
        (Inr reply,
         s\<lparr>conversation_history :=
              (if length (conversation_history s) < 20 then conversation_history s
               else tl (conversation_history s))
              @ [\<lparr>timestamp = now', user = message, bot = reply\<rparr>]\<rparr>) \<and>
      process_message_directly now now' rnd message s =
        (Inr (reply, analyze_message message),
         s\<lparr>conversation_history :=
              (if length (conversation_history s) < 20 then conversation_history s
               else tl (conversation_history s))
              @ [\<lparr>timestamp = now', user = message, bot = reply\<rparr>]\<rparr>)) \<and>
   (isfinite (battery_pct (STATE s)) \<and> isfinite (load_w (STATE s)) \<and> isfinite (sun_w (STATE s)) \<longrightarrow>
      (\<exists>reply. generate_response now rnd message (intent (analyze_message message)) s = Inr reply)) \<and>
   (\<forall>e. generate_response now rnd message (intent (analyze_message message)) s = Inl e \<longrightarrow>
      process_message now now' rnd message s = (Inl e, s) \<and>
      process_message_directly now now' rnd message s = (Inl e, s))"
proof -
  have hist: "add_to_history now' message reply s =
        s\<lparr>conversation_history :=
              (if length (conversation_history s) < 20 then conversation_history s
               else tl (conversation_history s))
              @ [\<lparr>timestamp = now', user = message, bot = reply\<rparr>]\<rparr>" for reply
    using add_to_history_history [of now' message reply s]
    by (simp add: add_to_history_def Let_def)
  show ?thesis
    using generate_response_total [of s now rnd message "intent (analyze_message message)"]
    by (simp add: process_message_def process_message_directly_def Let_def hist)
qed

text \<open>
  Claim C10, amended, for the message \<open>hello\<close> after startup: the reply is returned with
  the analysis, and the log holds the one new entry.
\<close>

theorem process_message_appends_witness:
  "generate_response 0 0 ''hello'' (intent (analyze_message ''hello'')) (startup 0)
     = Inr ''Greetings, human. How may I assist you today?'' \<and>
   process_message_directly 0 1 0 ''hello'' (startup 0)
     = (Inr (''Greetings, human. How may I assist you today?'',
             \<lparr>intent = ''greeting'', confidence = 0.9\<rparr>),
        (startup 0)\<lparr>conversation_history :=
           [\<lparr>timestamp = 1, user = ''hello'',
             bot = ''Greetings, human. How may I assist you today?''\<rparr>]\<rparr>)"
proof -
  have a: "analyze_message ''hello'' = \<lparr>intent = ''greeting'', confidence = 0.9\<rparr>"
    by (simp add: analyze_message_def text_defs word_defs)
  have g: "generate_response 0 0 ''hello'' (intent (analyze_message ''hello'')) (startup 0)
     = Inr ''Greetings, human. How may I assist you today?''"
    by (simp add: a generate_response_branches choose_pattern_def response_patterns_def choice_def)
  have h: "conversation_history (startup 0) = []" by (simp add: startup_def)
  show ?thesis
    using process_message_appends [of 0 0 "''hello''" "startup 0" 1] g
    by (simp add: a h)
qed

section \<open>Properties of broadcasting and of the state endpoints\<close>

lemma upt_0_Suc: "[0..<Suc n] = 0 # map Suc [0..<n]"
  by (simp add: upt_conv_Cons map_Suc_upt del: upt_Suc)

lemma sends_Nil: "sends ok m ev [] = []"
  by (simp add: sends_def)

lemma sends_Cons:
  "sends ok m ev (w # ws) = Send w ev (ok m w) # sends ok (Suc m) ev ws"
  unfolding sends_def length_Cons upt_0_Suc by (simp add: comp_def)

lemma kept_Nil: "kept ok m [] = []"
  by (simp add: kept_def)

lemma kept_Cons:
  "kept ok m (w # ws) = (if ok m w then [w] else []) @ kept ok (Suc m) ws"
  unfolding kept_def length_Cons upt_0_Suc by (simp add: filter_map comp_def)

lemma broadcast_loop_eq:
  "broadcast_loop ok ev ws living s =
     (living @ kept ok (length (trace s)) ws,
      s\<lparr>trace := trace s @ sends ok (length (trace s)) ev ws\<rparr>)"
proof (induction ws arbitrary: living s)
  case Nil
  then show ?case by (simp add: sends_Nil kept_Nil)
next
  case (Cons w ws)
  show ?case
    by (cases "ok (length (trace s)) w")
       (simp_all add: send_json_def Let_def Cons.IH sends_Cons kept_Cons)
qed

lemma broadcast_eq:
  "broadcast ok ev s =
     (Inr (), s\<lparr>trace := trace s @ Broadcast ev # sends ok (Suc (length (trace s))) ev (active s),
                 active := kept ok (Suc (length (trace s))) (active s)\<rparr>)"
  by (simp add: broadcast_def broadcast_loop_eq)

lemma set_kept: "set (kept ok m ws) \<subseteq> set ws"
  by (induction ws arbitrary: m) (auto simp: kept_Nil kept_Cons)


lemma received_append: "received w (xs @ ys) = received w xs @ received w ys"
  by (induction w xs rule: received.induct) auto

lemma received_sends_absent: "w \<notin> set ws \<Longrightarrow> received w (sends ok m ev ws) = []"
  by (induction ws arbitrary: m) (auto simp: sends_Nil sends_Cons)

lemma received_sends:
  "distinct ws \<Longrightarrow>
     received w (sends ok m ev ws) = (if w \<in> set (kept ok m ws) then [ev] else [])"
proof (induction ws arbitrary: m)
  case Nil
  then show ?case by (simp add: sends_Nil kept_Nil)
next
  case (Cons x ws)
  show ?case
  proof (cases "x = w")
    case True
    then have "w \<notin> set ws" using Cons.prems by simp
    then have "received w (sends ok (Suc m) ev ws) = []" "w \<notin> set (kept ok (Suc m) ws)"
      using received_sends_absent set_kept by blast+
    with True show ?thesis by (simp add: sends_Cons kept_Cons)
  next
    case False
    then show ?thesis using Cons by (simp add: sends_Cons kept_Cons)
  qed
qed

lemma kept_nth:
  assumes "distinct ws" "i < length ws"
  shows "ws ! i \<in> set (kept ok m ws) \<longleftrightarrow> ok (m + i) (ws ! i)"
  using assms
proof (induction ws arbitrary: m i)
  case Nil
  then show ?case by simp
next
  case (Cons x ws)
  show ?case
  proof (cases i)
    case 0
    have "x \<notin> set (kept ok (Suc m) ws)" using Cons.prems(1) set_kept by fastforce
    with 0 show ?thesis by (simp add: kept_Cons)
  next
    case (Suc j)
    then have j: "j < length ws" using Cons.prems(2) by simp
    then have "ws ! j \<noteq> x" using Cons.prems(1) by auto
    moreover have "ws ! j \<in> set (kept ok (Suc m) ws) \<longleftrightarrow> ok (Suc m + j) (ws ! j)"
      using Cons.IH [OF _ j] Cons.prems(1) by simp
    ultimately show ?thesis using Suc by (simp add: kept_Cons)
  qed
qed



text \<open>
  Claim C4: \<open>broadcast\<close> attempts one send to each registered socket, in registration
  order; it returns without an error whatever the sends do, and the sockets registered
  afterwards are those whose send succeeded, in their old order. With the registered
  sockets distinct objects, as they are, a socket whose send fails is no longer registered
  and has received nothing, and a socket whose send succeeds is still registered and has
  received the event. Nothing else in the state changes.
\<close>

theorem broadcast_prunes_failed:
  "\<exists>s'. broadcast ok ev s = (Inr (), s') \<and>
      trace s' = trace s @ Broadcast ev # sends ok (Suc (length (trace s))) ev (active s) \<and>
      active s' = kept ok (Suc (length (trace s))) (active s) \<and>
      (distinct (active s) \<longrightarrow>
        (\<forall>i < length (active s).
           if ok (Suc (length (trace s)) + i) (active s ! i)
           then active s ! i \<in> set (active s') \<and>
                received (active s ! i) (trace s') = received (active s ! i) (trace s) @ [ev]
           else active s ! i \<notin> set (active s') \<and>
                received (active s ! i) (trace s') = received (active s ! i) (trace s))) \<and>
      STATE s' = STATE s \<and> conversation_history s' = conversation_history s \<and>
      last_maintenance s' = last_maintenance s"
proof -
  let ?m = "Suc (length (trace s))"
  let ?s' = "s\<lparr>trace := trace s @ Broadcast ev # sends ok ?m ev (active s),
               active := kept ok ?m (active s)\<rparr>"
  have rcv: "received w (trace ?s') =
               received w (trace s) @ (if w \<in> set (kept ok ?m (active s)) then [ev] else [])"
    if "distinct (active s)" for w
    using received_sends [OF that, of w ok ?m ev] by (simp add: received_append)
  have "if ok (?m + i) (active s ! i)
        then active s ! i \<in> set (active ?s') \<and>
             received (active s ! i) (trace ?s') = received (active s ! i) (trace s) @ [ev]
        else active s ! i \<notin> set (active ?s') \<and>
             received (active s ! i) (trace ?s') = received (active s ! i) (trace s)"
    if "distinct (active s)" "i < length (active s)" for i
    using kept_nth [OF that, of ok ?m] rcv [OF that(1), of "active s ! i"] by simp
  note per = this
  show ?thesis
  proof (intro exI [of _ ?s'] conjI allI impI)
    show "broadcast ok ev s = (Inr (), ?s')" by (rule broadcast_eq)
  next
    fix i assume "distinct (active s)" "i < length (active s)"
    then show "if ok (?m + i) (active s ! i)
        then active s ! i \<in> set (active ?s') \<and>
             received (active s ! i) (trace ?s') = received (active s ! i) (trace s) @ [ev]
        else active s ! i \<notin> set (active ?s') \<and>
             received (active s ! i) (trace ?s') = received (active s ! i) (trace s)"
      by (rule per)
  qed simp_all
qed

text \<open>
  Claim C4 with three registered sockets 7, 8, 9, where the send to 8 fails: 8 is removed,
  7 and 9 stay registered in that order, and each of them has received the event.
\<close>

theorem broadcast_prunes_failed_witness:
  "distinct (active ((startup 0)\<lparr>active := [7, 8, 9]\<rparr>)) \<and>
   broadcast (\<lambda>n w. w \<noteq> 8) Clear_center ((startup 0)\<lparr>active := [7, 8, 9]\<rparr>)
     = (Inr (), (startup 0)\<lparr>active := [7, 9],
                             trace := [Broadcast Clear_center, Send 7 Clear_center True,
                                       Send 8 Clear_center False, Send 9 Clear_center True]\<rparr>) \<and>
   received 7 [Broadcast Clear_center, Send 7 Clear_center True,
               Send 8 Clear_center False, Send 9 Clear_center True] = [Clear_center] \<and>
   received 8 [Broadcast Clear_center, Send 7 Clear_center True,
               Send 8 Clear_center False, Send 9 Clear_center True] = [] \<and>
   received 9 [Broadcast Clear_center, Send 7 Clear_center True,
               Send 8 Clear_center False, Send 9 Clear_center True] = [Clear_center]"
proof -
  let ?s = "(startup 0)\<lparr>active := [7, 8, 9]\<rparr>"
  have d: "distinct (active ?s)" by simp
  have e: "broadcast (\<lambda>n w. w \<noteq> 8) Clear_center ?s
     = (Inr (), (startup 0)\<lparr>active := [7, 9],
                             trace := [Broadcast Clear_center, Send 7 Clear_center True,
                                       Send 8 Clear_center False, Send 9 Clear_center True]\<rparr>)"
    by (simp add: broadcast_eq startup_def kept_Cons kept_Nil sends_Cons sends_Nil)
  obtain s' where "broadcast (\<lambda>n w. w \<noteq> 8) Clear_center ?s = (Inr (), s')"
    using broadcast_prunes_failed [of "\<lambda>n w. w \<noteq> 8" Clear_center ?s] by blast
  with e d show ?thesis by simp
qed

lemma setattr_self: "holds (setattr st a) a"
  by (cases a) simp_all

lemma setattr_pending: "bot_reply_pending (setattr st a) = bot_reply_pending st"
  by (cases a) simp_all

lemma setattr_other: "key it \<noteq> key a \<Longrightarrow> holds (setattr st a) it = holds st it"
  by (cases a; cases it; simp)

lemma foldl_setattr_other:
  "key it \<notin> key ` set upd \<Longrightarrow> holds (foldl setattr st upd) it = holds st it"
  by (induction upd arbitrary: st) (simp_all add: setattr_other)

lemma foldl_setattr_pending:
  "bot_reply_pending (foldl setattr st upd) = bot_reply_pending st"
  by (induction upd arbitrary: st) (simp_all add: setattr_pending)

lemma foldl_setattr_holds:
  "distinct (map key upd) \<Longrightarrow> it \<in> set upd \<Longrightarrow> holds (foldl setattr st upd) it"
proof (induction upd arbitrary: st)
  case Nil
  then show ?case by simp
next
  case (Cons a upd)
  show ?case
  proof (cases "it = a")
    case True
    have "key a \<notin> key ` set upd" using Cons.prems(1) by simp
    then show ?thesis using True by (simp add: foldl_setattr_other setattr_self)
  next
    case False
    then show ?thesis using Cons by simp
  qed
qed

text \<open>
  Claim C5: \<open>update_state\<close>, given the fields a request set (a dictionary: each field at
  most once), gives every one of those fields the supplied value, leaves every other field
  of \<open>STATE\<close> as it was (\<open>bot_reply_pending\<close> included), and then broadcasts a \<open>state\<close>
  event that carries the resulting full state to the registered sockets.
\<close>

theorem update_state_partial:
  "\<exists>s'. update_state ok upd s = (Inr (), s') \<and>
      (distinct (map key upd) \<longrightarrow> (\<forall>it \<in> set upd. holds (STATE s') it)) \<and>
      (\<forall>it. key it \<notin> key ` set upd \<longrightarrow> holds (STATE s') it = holds (STATE s) it) \<and>
      bot_reply_pending (STATE s') = bot_reply_pending (STATE s) \<and>
      trace s' = trace s @ Broadcast (State_event (STATE s'))
                   # sends ok (Suc (length (trace s))) (State_event (STATE s')) (active s) \<and>
      active s' = kept ok (Suc (length (trace s))) (active s) \<and>
      conversation_history s' = conversation_history s \<and>
      last_maintenance s' = last_maintenance s"
proof -
  let ?st = "foldl setattr (STATE s) upd"
  let ?m = "Suc (length (trace s))"
  let ?s' = "s\<lparr>STATE := ?st,
               trace := trace s @ Broadcast (State_event ?st) # sends ok ?m (State_event ?st) (active s),
               active := kept ok ?m (active s)\<rparr>"
  have run: "update_state ok upd s = (Inr (), ?s')"
    by (simp add: update_state_def Let_def broadcast_eq)
  show ?thesis
  proof (intro exI [of _ ?s'] conjI ballI allI impI)
    show "update_state ok upd s = (Inr (), ?s')" by (rule run)
  next
    fix it assume "distinct (map key upd)" "it \<in> set upd"
    then show "holds (STATE ?s') it" using foldl_setattr_holds by simp
  next
    fix it assume "key it \<notin> key ` set upd"
    then show "holds (STATE ?s') it = holds (STATE s) it"
      using foldl_setattr_other by simp
  qed (simp_all add: foldl_setattr_pending)
qed

text \<open>
  Claim C5 for an update of \<open>battery_pct\<close> and \<open>headline\<close> after startup, with one socket
  registered: the two fields change, \<open>load_w\<close> does not, and the socket is sent the new
  state.
\<close>

theorem update_state_partial_witness:
  "distinct (map key [Item_battery_pct (Some (Finite 50)), Item_headline (Some ''HOME'')]) \<and>
   update_state (\<lambda>n w. True) [Item_battery_pct (Some (Finite 50)), Item_headline (Some ''HOME'')]
       ((startup 0)\<lparr>active := [7]\<rparr>)
     = (Inr (),
        (startup 0)\<lparr>active := [7],
          STATE := HudState_defaults\<lparr>battery_pct := Some (Finite 50), headline := Some ''HOME''\<rparr>,
          trace := [Broadcast (State_event (HudState_defaults\<lparr>battery_pct := Some (Finite 50),
                                                               headline := Some ''HOME''\<rparr>)),
                    Send 7 (State_event (HudState_defaults\<lparr>battery_pct := Some (Finite 50),
                                                            headline := Some ''HOME''\<rparr>)) True]\<rparr>) \<and>
   load_w (HudState_defaults\<lparr>battery_pct := Some (Finite 50), headline := Some ''HOME''\<rparr>)
     = load_w HudState_defaults"
proof -
  let ?upd = "[Item_battery_pct (Some (Finite 50)), Item_headline (Some ''HOME'')]"
  let ?s = "(startup 0)\<lparr>active := [7]\<rparr>"
  have d: "distinct (map key ?upd)" by simp
  have e: "update_state (\<lambda>n w. True) ?upd ?s
     = (Inr (),
        (startup 0)\<lparr>active := [7],
          STATE := HudState_defaults\<lparr>battery_pct := Some (Finite 50), headline := Some ''HOME''\<rparr>,
          trace := [Broadcast (State_event (HudState_defaults\<lparr>battery_pct := Some (Finite 50),
                                                               headline := Some ''HOME''\<rparr>)),
                    Send 7 (State_event (HudState_defaults\<lparr>battery_pct := Some (Finite 50),
                                                            headline := Some ''HOME''\<rparr>)) True]\<rparr>)"
    by (simp add: update_state_def Let_def broadcast_eq startup_def kept_Cons kept_Nil
        sends_Cons sends_Nil)
  obtain s' where "update_state (\<lambda>n w. True) ?upd ?s = (Inr (), s')"
    using update_state_partial [of "\<lambda>n w. True" ?upd ?s] by blast
  with e d show ?thesis by simp
qed

text \<open>
  Claim C7: \<open>bot_reply\<close> with text \<open>t\<close> sets \<open>bot_reply_pending\<close> to \<open>t\<close>, broadcasts a
  \<open>bot_reply\<close> event carrying \<open>t\<close> (read back from \<open>STATE\<close>, where it still stands when the
  broadcast ends) to every registered socket, and then sets \<open>bot_reply_pending\<close> to
  \<open>None\<close>. In the final state \<open>bot_reply_pending\<close> is \<open>None\<close> and every other field of
  \<open>STATE\<close> is as before; the log and the last maintenance date are untouched.
\<close>

theorem bot_reply_transient:
  "bot_reply ok text s =
     (Inr (), s\<lparr>STATE := (STATE s)\<lparr>bot_reply_pending := None\<rparr>,
                 trace := trace s @ Broadcast (Bot_reply (Some text))
                            # sends ok (Suc (length (trace s))) (Bot_reply (Some text)) (active s),
                 active := kept ok (Suc (length (trace s))) (active s)\<rparr>) \<and>
   (\<exists>s1 s2. s1 = s\<lparr>STATE := (STATE s)\<lparr>bot_reply_pending := Some text\<rparr>\<rparr> \<and>
       broadcast ok (Bot_reply (bot_reply_pending (STATE s1))) s1 = (Inr (), s2) \<and>
       bot_reply_pending (STATE s2) = Some text \<and>
       bot_reply ok text s = (Inr (), s2\<lparr>STATE := (STATE s2)\<lparr>bot_reply_pending := None\<rparr>\<rparr>))"
proof -
  let ?s1 = "s\<lparr>STATE := (STATE s)\<lparr>bot_reply_pending := Some text\<rparr>\<rparr>"
  let ?s2 = "?s1\<lparr>trace := trace s @ Broadcast (Bot_reply (Some text))
                        # sends ok (Suc (length (trace s))) (Bot_reply (Some text)) (active s),
                active := kept ok (Suc (length (trace s))) (active s)\<rparr>"
  have pending: "bot_reply_pending (STATE ?s1) = Some text" by simp
  have sent: "broadcast ok (Bot_reply (bot_reply_pending (STATE ?s1))) ?s1 = (Inr (), ?s2)"
    unfolding pending by (simp add: broadcast_eq)
  have still: "bot_reply_pending (STATE ?s2) = Some text" by simp
  have cleared: "bot_reply ok text s
                   = (Inr (), ?s2\<lparr>STATE := (STATE ?s2)\<lparr>bot_reply_pending := None\<rparr>\<rparr>)"
    using sent by (simp add: bot_reply_def Let_def)
  have final: "?s2\<lparr>STATE := (STATE ?s2)\<lparr>bot_reply_pending := None\<rparr>\<rparr>
                 = s\<lparr>STATE := (STATE s)\<lparr>bot_reply_pending := None\<rparr>,
                     trace := trace s @ Broadcast (Bot_reply (Some text))
                                # sends ok (Suc (length (trace s))) (Bot_reply (Some text)) (active s),
                     active := kept ok (Suc (length (trace s))) (active s)\<rparr>"
    by simp
  show ?thesis
  proof (rule conjI)
    show "bot_reply ok text s
            = (Inr (), s\<lparr>STATE := (STATE s)\<lparr>bot_reply_pending := None\<rparr>,
                 trace := trace s @ Broadcast (Bot_reply (Some text))
                            # sends ok (Suc (length (trace s))) (Bot_reply (Some text)) (active s),
                 active := kept ok (Suc (length (trace s))) (active s)\<rparr>)"
      using cleared final by simp
    show "\<exists>s1 s2. s1 = s\<lparr>STATE := (STATE s)\<lparr>bot_reply_pending := Some text\<rparr>\<rparr> \<and>
       broadcast ok (Bot_reply (bot_reply_pending (STATE s1))) s1 = (Inr (), s2) \<and>
       bot_reply_pending (STATE s2) = Some text \<and>
       bot_reply ok text s = (Inr (), s2\<lparr>STATE := (STATE s2)\<lparr>bot_reply_pending := None\<rparr>\<rparr>)"
      by (rule exI [of _ ?s1], rule exI [of _ ?s2]) (intro conjI refl sent still cleared)
  qed
qed

text \<open>
  Claim C7 after startup with two sockets registered: both are sent the reply, and the
  state ends as it began but for the trace.
\<close>

theorem bot_reply_transient_witness:
  "bot_reply (\<lambda>n w. True) ''Dinner is ready.'' ((startup 0)\<lparr>active := [7, 8]\<rparr>)
     = (Inr (), (startup 0)\<lparr>active := [7, 8],
                  trace := [Broadcast (Bot_reply (Some ''Dinner is ready.'')),
                            Send 7 (Bot_reply (Some ''Dinner is ready.'')) True,
                            Send 8 (Bot_reply (Some ''Dinner is ready.'')) True]\<rparr>) \<and>
   bot_reply_pending (STATE (startup 0)) = None"
  using bot_reply_transient [of "\<lambda>n w. True" "''Dinner is ready.''" "(startup 0)\<lparr>active := [7, 8]\<rparr>"]
  by (simp add: startup_def HudState_defaults_def kept_Cons kept_Nil sends_Cons sends_Nil)

section \<open>Properties of the message dispatcher\<close>











end
